theory Spec2Isabelle
  imports Main "HOL-Library.AList" "HOL-Library.Sublist"
begin

section \<open>GoRest: the immutable REST client builder of rest_client.go\<close>

text \<open>
  The embedding follows \<^verbatim>\<open>rest_client.go\<close> function by function. Go strings and byte
  slices are lists of bytes (\<open>char list\<close>). A Go map is a reference to a table: the
  tables live in an explicit store and a \<open>RestClient\<close> holds their addresses, so that
  sharing between configs is visible. Errors are values; every \<^verbatim>\<open>return err\<close> of
  \<^verbatim>\<open>request\<close> is a branch of the model. The calls that leave the program (the
  transport, reading the body, the unmarshalling of a container) are recorded in a trace.
\<close>

subsection \<open>Go library functions used by the source\<close>

type_synonym bytes = "char list"

text \<open>
  \<^verbatim>\<open>strings.Trim(s, cutset)\<close>: all leading and trailing bytes of \<open>s\<close> that occur in
  \<open>cutset\<close> are removed. The source only uses the one-byte ASCII cutset \<^verbatim>\<open>"/"\<close>, for
  which trimming bytes and trimming code points agree.
\<close>

definition strings_Trim :: "string \<Rightarrow> string \<Rightarrow> string" where
  "strings_Trim s cutset =
     rev (dropWhile (\<lambda>c. c \<in> set cutset) (rev (dropWhile (\<lambda>c. c \<in> set cutset) s)))"

text \<open>
  \<^verbatim>\<open>strings.ToLower\<close> follows the Unicode case tables (it lowers letters outside ASCII
  as well, and rewrites invalid UTF-8), so it is not defined here: it is one of the library
  functions the model takes as a parameter, see \<open>golib\<close> below.
\<close>

text \<open>\<^verbatim>\<open>strings.Contains(s, substr)\<close>: \<open>substr\<close> occurs in \<open>s\<close> as a contiguous block.\<close>

fun strings_Contains :: "string \<Rightarrow> string \<Rightarrow> bool" where
  "strings_Contains [] substr = (substr = [])"
| "strings_Contains (c # s) substr = (prefix substr (c # s) \<or> strings_Contains s substr)"

text \<open>
  \<^verbatim>\<open>url.Values\<close> and \<^verbatim>\<open>http.Header\<close> are both \<^verbatim>\<open>map[string][]string\<close>; \<^verbatim>\<open>Add\<close>
  appends the value to the list stored under the key. \<^verbatim>\<open>Header.Add\<close> and
  \<^verbatim>\<open>Header.Get\<close> first bring the key into canonical MIME form; the only keys the source
  passes, \<^verbatim>\<open>"Accept"\<close> and \<^verbatim>\<open>"Content-Type"\<close>, are in that form already. \<^verbatim>\<open>Get\<close>
  returns the first value under the key, and the empty string when there is none.
\<close>

type_synonym Values = "(string \<times> string list) list"

definition Values_Add :: "Values \<Rightarrow> string \<Rightarrow> string \<Rightarrow> Values" where
  "Values_Add vs key val =
     AList.update key ((case map_of vs key of None \<Rightarrow> [] | Some xs \<Rightarrow> xs) @ [val]) vs"

type_synonym Header = "(string \<times> string list) list"

definition Header_Add :: "Header \<Rightarrow> string \<Rightarrow> string \<Rightarrow> Header" where
  "Header_Add h key val =
     AList.update key ((case map_of h key of None \<Rightarrow> [] | Some xs \<Rightarrow> xs) @ [val]) h"

definition Header_Get :: "Header \<Rightarrow> string \<Rightarrow> string" where
  "Header_Get h key =
     (case map_of h key of None \<Rightarrow> [] | Some [] \<Rightarrow> [] | Some (v # _) \<Rightarrow> v)"

text \<open>
  An \<^verbatim>\<open>http.Request\<close> as far as the source fills it in: the method, the URL string it was
  built from, the payload (\<open>None\<close> for a nil body) and the header. An \<^verbatim>\<open>http.Response\<close>
  as far as the source reads it: the header, and what \<^verbatim>\<open>ioutil.ReadAll(res.Body)\<close>
  returns, the payload or the message of an I/O error.
\<close>

record http_Request =
  req_Method :: string
  req_URL :: string
  req_Body :: "bytes option"
  req_Header :: Header

record http_Response =
  res_Header :: Header
  res_Body :: "string + bytes"

text \<open>
  \<^verbatim>\<open>http.Client\<close> is the transport: its method \<^verbatim>\<open>Do\<close> sends a request and returns a
  response or the message of a transport error.
\<close>

record http_Client =
  Do :: "http_Request \<Rightarrow> string + http_Response"

text \<open>Only the name and the value of an \<^verbatim>\<open>http.Cookie\<close> are kept.\<close>

record http_Cookie =
  Name :: string
  Value :: string

subsection \<open>Errors and observable effects\<close>

text \<open>
  A Go \<^verbatim>\<open>error\<close> returned by \<^verbatim>\<open>request\<close> is tagged with the call it comes from. The
  only error the source builds itself is the \<^verbatim>\<open>errors.New\<close> of the content type check,
  which carries its formatted message.
\<close>

datatype error =
    InvalidURL string
  | RequestBuildError string
  | TransportError string
  | ContentTypeMismatch string
  | BodyReadError string
  | DeserializationError string

datatype event =
    EvDo http_Request
  | EvReadAll
  | EvUnmarshal nat

text \<open>
  What a terminal operation leaves behind: the error it returns (\<open>None\<close> for nil), the
  result containers after the call, and the external calls it has made, in order.
\<close>

record 'e outcome =
  err :: "error option"
  entities :: "'e list"
  trace :: "event list"

subsection \<open>Collaborators that are not in rest_client.go\<close>

text \<open>
  Modelled from the spec: the type \<^verbatim>\<open>MediaType\<close> is declared outside
  \<^verbatim>\<open>rest_client.go\<close>. The spec gives its two capabilities, the wire format name
  (\<^verbatim>\<open>String()\<close> in the source) and \<^verbatim>\<open>Unmarshal(bytes, target)\<close>, which fills the target
  or fails. \<open>Unmarshal\<close> returns the container as it leaves it together with the error
  message, if any: a failing call may have written to its own container.
\<close>

record 'e MediaType =
  MediaType_String :: string
  MediaType_Unmarshal :: "bytes \<Rightarrow> 'e \<Rightarrow> 'e \<times> string option"

text \<open>
  The rest of the environment is a parameter of the model: the parser of package
  \<^verbatim>\<open>net/url\<close> with the two methods of a parsed URL the source calls (\<^verbatim>\<open>Query()\<close>
  parses the raw query into a fresh \<^verbatim>\<open>Values\<close> each time it is called), the validation
  done by \<^verbatim>\<open>http.NewRequest\<close>, the client \<^verbatim>\<open>&http.Client{}\<close>, the function
  \<^verbatim>\<open>strings.ToLower\<close>, and the constant \<^verbatim>\<open>ApplicationJSON\<close> (modelled from the spec:
  the default media type, declared outside \<^verbatim>\<open>rest_client.go\<close>).
\<close>

record ('u, 'e) golib =
  url_Parse :: "string \<Rightarrow> string + 'u"
  url_Query :: "'u \<Rightarrow> Values"
  url_String :: "'u \<Rightarrow> string"
  http_NewRequest_error :: "string \<Rightarrow> string \<Rightarrow> string option"
  http_Client_new :: http_Client
  strings_ToLower :: "string \<Rightarrow> string"
  ApplicationJSON :: "'e MediaType"

text \<open>
  \<^verbatim>\<open>http.NewRequest(method, url, body)\<close>: fails on a method or URL it rejects; otherwise
  the request has the method (\<^verbatim>\<open>"GET"\<close> for the empty string), the URL, the body and an
  empty header.
\<close>

definition http_NewRequest ::
  "('u, 'e) golib \<Rightarrow> string \<Rightarrow> string \<Rightarrow> bytes option \<Rightarrow> string + http_Request" where
  "http_NewRequest lib method urlStr body =
     (case http_NewRequest_error lib method urlStr of
        Some msg \<Rightarrow> Inl msg
      | None \<Rightarrow>
          Inr \<lparr>req_Method = (if method = [] then ''GET'' else method), req_URL = urlStr,
               req_Body = body, req_Header = []\<rparr>)"

subsection \<open>The store of Go maps\<close>

text \<open>
  A \<^verbatim>\<open>map[string]string\<close> value is an address into the store; the table at an address
  is an association list with one entry per key. \<^verbatim>\<open>make\<close> allocates a fresh empty table,
  \<^verbatim>\<open>m[k] = v\<close> updates the table in place, and \<^verbatim>\<open>range m\<close> visits every entry once. Go
  leaves the order of the visit open; the model visits in the order of the list. An address
  outside the store reads as the nil map, which has no entries. The source assigns only into
  a map it has just made, so the assignment to a nil map (a panic in Go) does not arise;
  \<open>map_assign\<close> leaves the store alone there.
\<close>

type_synonym gomap = "(string \<times> string) list"

type_synonym store = "gomap list"

definition make_map :: "store \<Rightarrow> nat \<times> store" where
  "make_map st = (length st, st @ [[]])"

definition map_range :: "store \<Rightarrow> nat \<Rightarrow> (string \<times> string) list" where
  "map_range st a = (if a < length st then st ! a else [])"

definition map_assign :: "store \<Rightarrow> nat \<Rightarrow> string \<Rightarrow> string \<Rightarrow> store" where
  "map_assign st a k v = (if a < length st then st[a := AList.update k v (st ! a)] else st)"

subsection \<open>RestClient and its constructors\<close>

record 'e RestClient =
  client :: http_Client
  url :: string
  accept :: "'e MediaType"
  contentType :: "'e MediaType"
  headers :: nat
  query :: nat
  cookies :: "http_Cookie list"

definition newClient ::
  "http_Client \<Rightarrow> string \<Rightarrow> 'e MediaType \<Rightarrow> 'e MediaType \<Rightarrow> nat \<Rightarrow> nat \<Rightarrow> http_Cookie list
     \<Rightarrow> 'e RestClient" where
  "newClient cl u acc ct hs q cs =
     \<lparr>client = cl, url = u, accept = acc, contentType = ct, headers = hs, query = q,
      cookies = cs\<rparr>"

definition MakeClient :: "('u, 'e) golib \<Rightarrow> string \<Rightarrow> store \<Rightarrow> 'e RestClient \<times> store" where
  "MakeClient lib baseUrl st =
     (let (hs, st1) = make_map st;
          (q, st2) = make_map st1
      in (newClient (http_Client_new lib) (strings_Trim baseUrl ''/'')
            (ApplicationJSON lib) (ApplicationJSON lib) hs q [], st2))"

subsection \<open>Getters\<close>

definition GetURL :: "'e RestClient \<Rightarrow> string" where
  "GetURL rc = url rc"

definition GetAccept :: "'e RestClient \<Rightarrow> 'e MediaType" where
  "GetAccept rc = accept rc"

definition GetContentType :: "'e RestClient \<Rightarrow> 'e MediaType" where
  "GetContentType rc = contentType rc"

definition GetHeaders :: "'e RestClient \<Rightarrow> nat" where
  "GetHeaders rc = headers rc"

subsection \<open>Builder methods\<close>

definition Accept :: "'e RestClient \<Rightarrow> 'e MediaType \<Rightarrow> 'e RestClient" where
  "Accept rc acc =
     newClient (client rc) (url rc) acc (contentType rc) (headers rc) (query rc) (cookies rc)"

definition ContentType :: "'e RestClient \<Rightarrow> 'e MediaType \<Rightarrow> 'e RestClient" where
  "ContentType rc ct =
     newClient (client rc) (url rc) (accept rc) ct (headers rc) (query rc) (cookies rc)"

text \<open>\<^verbatim>\<open>fmt.Sprintf("%s/%s", a, b)\<close> is \<open>a @ ''/'' @ b\<close>.\<close>

definition Path :: "'e RestClient \<Rightarrow> string list \<Rightarrow> 'e RestClient" where
  "Path rc path =
     (let newClient0 =
            newClient (client rc) (url rc) (accept rc) (contentType rc) (headers rc) (query rc)
              (cookies rc)
      in fold (\<lambda>p nc. nc\<lparr>url := url nc @ ''/'' @ strings_Trim p ''/''\<rparr>) path newClient0)"

text \<open>The loop of \<open>Query\<close> ranges over \<^verbatim>\<open>rc.headers\<close>, as the source has it.\<close>

definition Query :: "'e RestClient \<Rightarrow> string \<Rightarrow> string \<Rightarrow> store \<Rightarrow> 'e RestClient \<times> store" where
  "Query rc key val st =
     (let (newQuery, st1) = make_map st;
          st2 = fold (\<lambda>(k, v) s. map_assign s newQuery k v) (map_range st1 (headers rc)) st1;
          st3 = map_assign st2 newQuery key val
      in (newClient (client rc) (url rc) (accept rc) (contentType rc) (headers rc) newQuery
            (cookies rc), st3))"

definition Header :: "'e RestClient \<Rightarrow> string \<Rightarrow> string \<Rightarrow> store \<Rightarrow> 'e RestClient \<times> store" where
  "Header rc key val st =
     (let (newHeaders, st1) = make_map st;
          st2 = fold (\<lambda>(k, v) s. map_assign s newHeaders k v) (map_range st1 (headers rc)) st1;
          st3 = map_assign st2 newHeaders key val
      in (newClient (client rc) (url rc) (accept rc) (contentType rc) newHeaders (query rc)
            (cookies rc), st3))"

text \<open>
  \<^verbatim>\<open>append(rc.cookies, cookie)\<close>: the new slice holds the old cookies followed by the new
  one. (Whether it shares its backing array with \<^verbatim>\<open>rc.cookies\<close> is not modelled.)
\<close>

definition Cookie :: "'e RestClient \<Rightarrow> http_Cookie \<Rightarrow> 'e RestClient" where
  "Cookie rc cookie =
     newClient (client rc) (url rc) (accept rc) (contentType rc) (headers rc) (query rc)
       (cookies rc @ [cookie])"

subsection \<open>The request\<close>

text \<open>
  The loop over the result containers: \<open>i\<close> is the index of the first container of the
  list. It stops at the first \<open>Unmarshal\<close> that returns an error.
\<close>

fun unmarshal_loop ::
  "'e MediaType \<Rightarrow> bytes \<Rightarrow> nat \<Rightarrow> 'e list \<Rightarrow> error option \<times> 'e list \<times> event list" where
  "unmarshal_loop mt body i [] = (None, [], [])"
| "unmarshal_loop mt body i (e # es) =
     (case MediaType_Unmarshal mt body e of
        (e', Some msg) \<Rightarrow> (Some (DeserializationError msg), e' # es, [EvUnmarshal i])
      | (e', None) \<Rightarrow>
          (case unmarshal_loop mt body (Suc i) es of
             (r, es', tr) \<Rightarrow> (r, e' # es', EvUnmarshal i # tr)))"

text \<open>
  The loop over \<^verbatim>\<open>rc.query\<close>: each round calls \<^verbatim>\<open>uri.Query()\<close>, which hands out a fresh
  \<^verbatim>\<open>Values\<close>, adds the pair to that value and drops it; \<open>uri\<close> itself is not assigned.
\<close>

definition add_query_params ::
  "('u, 'e) golib \<Rightarrow> (string \<times> string) list \<Rightarrow> 'u \<Rightarrow> 'u" where
  "add_query_params lib kvs uri0 =
     fold (\<lambda>(k, v) uri. let dropped = Values_Add (url_Query lib uri) k v in uri) kvs uri0"

definition request ::
  "('u, 'e) golib \<Rightarrow> 'e RestClient \<Rightarrow> store \<Rightarrow> string \<Rightarrow> bytes option \<Rightarrow> 'e list \<Rightarrow> 'e outcome"
  where
  "request lib rc st httpReq reqBody resEntity =
     (case url_Parse lib (url rc) of
        Inl e \<Rightarrow> \<lparr>err = Some (InvalidURL e), entities = resEntity, trace = []\<rparr>
      | Inr uri0 \<Rightarrow>
          let uri = add_query_params lib (map_range st (query rc)) uri0 in
          (case (case reqBody of
                   Some bs \<Rightarrow> http_NewRequest lib httpReq (url_String lib uri) (Some bs)
                 | None \<Rightarrow> http_NewRequest lib httpReq (url_String lib uri) None) of
             Inl e \<Rightarrow> \<lparr>err = Some (RequestBuildError e), entities = resEntity, trace = []\<rparr>
           | Inr req0 \<Rightarrow>
               let req1 = req0\<lparr>req_Header :=
                            Header_Add (req_Header req0) ''Accept'' (MediaType_String (accept rc))\<rparr>;
                   req = req1\<lparr>req_Header :=
                            Header_Add (req_Header req1) ''Content-Type''
                              (MediaType_String (contentType rc))\<rparr>
               in
               (case Do (client rc) req of
                  Inl e \<Rightarrow>
                    \<lparr>err = Some (TransportError e), entities = resEntity, trace = [EvDo req]\<rparr>
                | Inr res \<Rightarrow>
                    let contentType_res = Header_Get (res_Header res) ''Content-Type'' in
                    if length resEntity \<noteq> 0 \<and>
                       \<not> strings_Contains (strings_ToLower lib contentType_res)
                           (strings_ToLower lib (MediaType_String (accept rc)))
                    then
                      \<lparr>err = Some (ContentTypeMismatch
                         (''Expected Response Content-Type ['' @ contentType_res @
                          ''] to match/contain Request Accept ['' @
                          MediaType_String (accept rc) @ '']'')),
                       entities = resEntity, trace = [EvDo req]\<rparr>
                    else
                      (case res_Body res of
                         Inl e \<Rightarrow>
                           \<lparr>err = Some (BodyReadError e), entities = resEntity,
                            trace = [EvDo req, EvReadAll]\<rparr>
                       | Inr body \<Rightarrow>
                           (case unmarshal_loop (accept rc) body 0 resEntity of
                              (r, es', tr) \<Rightarrow>
                                \<lparr>err = r, entities = es', trace = [EvDo req, EvReadAll] @ tr\<rparr>)))))"

subsection \<open>Terminal operations\<close>

definition Get :: "('u, 'e) golib \<Rightarrow> 'e RestClient \<Rightarrow> store \<Rightarrow> 'e list \<Rightarrow> 'e outcome" where
  "Get lib rc st resEntity = request lib rc st ''GET'' None resEntity"

text \<open>
  \<open>Put\<close> and \<open>Post\<close> pass the caller's slice on: a nil slice is \<open>None\<close>, as in \<open>request\<close>.
\<close>

definition Put ::
  "('u, 'e) golib \<Rightarrow> 'e RestClient \<Rightarrow> store \<Rightarrow> bytes option \<Rightarrow> 'e list \<Rightarrow> 'e outcome" where
  "Put lib rc st reqBody resEntity = request lib rc st ''PUT'' reqBody resEntity"

definition Post ::
  "('u, 'e) golib \<Rightarrow> 'e RestClient \<Rightarrow> store \<Rightarrow> bytes option \<Rightarrow> 'e list \<Rightarrow> 'e outcome" where
  "Post lib rc st reqBody resEntity = request lib rc st ''POST'' reqBody resEntity"

definition Delete :: "'e RestClient \<Rightarrow> 'e list \<Rightarrow> 'e outcome" where
  "Delete rc entity = \<lparr>err = None, entities = entity, trace = []\<rparr>"

subsection \<open>Notions used to state the properties\<close>

text \<open>
  The request that \<open>request\<close> hands to the transport once \<^verbatim>\<open>rc.url\<close> has been parsed to
  \<open>uri\<close> and \<^verbatim>\<open>http.NewRequest\<close> has accepted it.
\<close>

definition built_request ::
  "('u, 'e) golib \<Rightarrow> 'e RestClient \<Rightarrow> string \<Rightarrow> bytes option \<Rightarrow> 'u \<Rightarrow> http_Request" where
  "built_request lib rc m b uri =
     \<lparr>req_Method = (if m = [] then ''GET'' else m), req_URL = url_String lib uri,
      req_Body = b,
      req_Header = [(''Accept'', [MediaType_String (accept rc)]),
                    (''Content-Type'', [MediaType_String (contentType rc)])]\<rparr>"

text \<open>
  In \<^verbatim>\<open>net/http\<close> a cookie is attached to a request by \<^verbatim>\<open>req.AddCookie\<close>, which writes
  the pair \<^verbatim>\<open>name=value\<close> into the request's \<^verbatim>\<open>Cookie\<close> header. A cookie counts as
  attached when the \<^verbatim>\<open>Cookie\<close> header holds its pair.
\<close>

definition cookie_attached :: "http_Cookie \<Rightarrow> http_Request \<Rightarrow> bool" where
  "cookie_attached ck req =
     strings_Contains (Header_Get (req_Header req) ''Cookie'') (Name ck @ ''='' @ Value ck)"

subsection \<open>A concrete environment for the examples\<close>

text \<open>
  A media type named \<^verbatim>\<open>application/json\<close> whose containers are numbers: unmarshalling
  fails on a container that holds 0 and stores the length of the payload otherwise. A
  transport that answers every request with the given content type and the payload
  \<^verbatim>\<open>{}\<close>. A library in which every string parses to itself and every request can be
  built. Its lowering replaces each of the bytes \<^verbatim>\<open>'A'..'Z'\<close> by its lower case letter
  and leaves every other byte alone, which is what \<^verbatim>\<open>strings.ToLower\<close> does on ASCII
  text; every string the examples lower is ASCII.
\<close>

definition ascii_toLower_byte :: "char \<Rightarrow> char" where
  "ascii_toLower_byte c =
     (case map_of (zip ''ABCDEFGHIJKLMNOPQRSTUVWXYZ'' ''abcdefghijklmnopqrstuvwxyz'') c of
        Some l \<Rightarrow> l
      | None \<Rightarrow> c)"

definition ascii_ToLower :: "string \<Rightarrow> string" where
  "ascii_ToLower s = map ascii_toLower_byte s"

definition test_json :: "nat MediaType" where
  "test_json =
     \<lparr>MediaType_String = ''application/json'',
      MediaType_Unmarshal =
        (\<lambda>body e. if e = 0 then (e, Some ''cannot unmarshal'') else (length body, None))\<rparr>"

definition test_client :: "string \<Rightarrow> http_Client" where
  "test_client ct =
     \<lparr>Do = (\<lambda>req. Inr \<lparr>res_Header = [(''Content-Type'', [ct])], res_Body = Inr ''{}''\<rparr>)\<rparr>"

definition test_lib :: "(string, nat) golib" where
  "test_lib =
     \<lparr>url_Parse = Inr, url_Query = (\<lambda>u. []), url_String = (\<lambda>u. u),
      http_NewRequest_error = (\<lambda>m u. None),
      http_Client_new = test_client ''application/json; charset=utf-8'',
      strings_ToLower = ascii_ToLower,
      ApplicationJSON = test_json\<rparr>"

definition test_cookie :: http_Cookie where
  "test_cookie = \<lparr>Name = ''sid'', Value = ''42''\<rparr>"

definition test_base :: "nat RestClient" where
  "test_base = fst (MakeClient test_lib ''http://x/'' [])"

definition test_store :: store where
  "test_store = snd (MakeClient test_lib ''http://x/'' ([] :: store))"

definition test_request :: http_Request where
  "test_request = built_request test_lib test_base ''GET'' None ''http://x''"

text \<open>
  Configs built on \<open>test_base\<close>: two \<open>Query\<close> calls in a row, and a \<open>Header\<close> call
  followed by a \<open>Query\<close> call.
\<close>

definition test_q1 :: "nat RestClient \<times> store" where
  "test_q1 = Query test_base ''a'' ''1'' test_store"

definition test_q2 :: "nat RestClient \<times> store" where
  "test_q2 = Query (fst test_q1) ''b'' ''2'' (snd test_q1)"

definition test_h1 :: "nat RestClient \<times> store" where
  "test_h1 = Header test_base ''H'' ''1'' test_store"

definition test_hq :: "nat RestClient \<times> store" where
  "test_hq = Query (fst test_h1) ''a'' ''1'' (snd test_h1)"

section \<open>Properties\<close>

subsection \<open>Path composition\<close>

lemma dropWhile_slash_no_prefix: "\<not> prefix ''/'' (dropWhile (\<lambda>c. c \<in> set ''/'') xs)"
  by (induction xs) (auto simp: prefix_Cons)

lemma rev_dropWhile_rev_prefix: "prefix (rev (dropWhile P (rev ys))) ys"
proof -
  have "rev ys = takeWhile P (rev ys) @ dropWhile P (rev ys)"
    by simp
  then have "ys = rev (dropWhile P (rev ys)) @ rev (takeWhile P (rev ys))"
    by (metis rev_append rev_rev_ident)
  then show ?thesis
    by (metis prefixI)
qed

lemma strings_Trim_no_leading_slash: "\<not> prefix ''/'' (strings_Trim p ''/'')"
proof
  assume "prefix ''/'' (strings_Trim p ''/'')"
  then have "prefix ''/'' (dropWhile (\<lambda>c. c \<in> set ''/'') p)"
    unfolding strings_Trim_def using rev_dropWhile_rev_prefix prefix_order.trans by blast
  then show False
    using dropWhile_slash_no_prefix by blast
qed

lemma strings_Trim_no_trailing_slash: "\<not> suffix ''/'' (strings_Trim p ''/'')"
proof -
  have "suffix ''/'' (rev xs) = prefix ''/'' xs" for xs :: string
    using suffix_to_prefix [of "''/''" "rev xs"] by simp
  then show ?thesis
    unfolding strings_Trim_def using dropWhile_slash_no_prefix by blast
qed

lemma Path_url_fold:
  "url (fold (\<lambda>p nc. nc\<lparr>url := url nc @ ''/'' @ strings_Trim p ''/''\<rparr>) path
          (nc0 :: 'e RestClient))
     = url nc0 @ concat (map (\<lambda>p. ''/'' @ strings_Trim p ''/'') path)"
  by (induction path arbitrary: nc0) simp_all

lemma Path_url:
  "url (Path rc path) = url rc @ concat (map (\<lambda>p. ''/'' @ strings_Trim p ''/'') path)"
  unfolding Path_def Let_def Path_url_fold by (simp add: newClient_def)

lemma MakeClient_url: "url (fst (MakeClient lib baseUrl st)) = strings_Trim baseUrl ''/''"
  by (simp add: MakeClient_def make_map_def newClient_def)

text \<open>
  Claim C7. \<open>MakeClient\<close> stores the base URL with its leading and trailing slashes
  trimmed. \<open>Path\<close> appends, for each segment in call order, a slash followed by the segment
  with its own leading and trailing slashes trimmed, so that the appended segment neither
  starts nor ends with a slash. \<^verbatim>\<open>MakeClient("http://x/").Path("a","b")\<close> has the URL
  \<^verbatim>\<open>http://x/a/b\<close>.
\<close>

theorem Path_composition:
  "url (fst (MakeClient lib baseUrl st)) = strings_Trim baseUrl ''/''
   \<and> url (Path rc path) = url rc @ concat (map (\<lambda>p. ''/'' @ strings_Trim p ''/'') path)
   \<and> \<not> prefix ''/'' (strings_Trim p ''/'') \<and> \<not> suffix ''/'' (strings_Trim p ''/'')
   \<and> GetURL (Path (fst (MakeClient lib ''http://x/'' st)) [''a'', ''b'']) = ''http://x/a/b''"
  by (simp add: Path_url MakeClient_url strings_Trim_no_leading_slash
      strings_Trim_no_trailing_slash GetURL_def)
    (simp add: strings_Trim_def)

subsection \<open>Delete\<close>

text \<open>
  Claim C9. \<open>Delete\<close> returns no error for every config and every argument list; it calls
  neither the transport nor anything else, and leaves its arguments as they are.
\<close>

theorem Delete_no_error:
  "err (Delete rc entity) = None \<and> trace (Delete rc entity) = []
   \<and> entities (Delete rc entity) = entity"
  by (simp add: Delete_def)

subsection \<open>strings.Contains\<close>

lemma strings_Contains_sublist: "strings_Contains s substr = sublist substr s"
  by (induction s) (auto simp: sublist_Cons_right)

subsection \<open>Copying a map\<close>

lemma copy_fold:
  "a < length st \<Longrightarrow>
     fold (\<lambda>(k, v) s. map_assign s a k v) kvs st =
     st[a := fold (\<lambda>(k, v) al. AList.update k v al) kvs (st ! a)]"
proof (induction kvs arbitrary: st)
  case Nil
  then show ?case by simp
next
  case (Cons kv kvs)
  obtain k v where kv: "kv = (k, v)" by (cases kv)
  have len: "a < length (map_assign st a k v)"
    using Cons.prems by (simp add: map_assign_def)
  show ?case
    using Cons.prems by (simp add: kv Cons.IH [OF len]) (simp add: map_assign_def)
qed

lemma map_of_fold_update:
  "map_of (fold (\<lambda>(k, v) al. AList.update k v al) kvs al) = map_of al ++ map_of (rev kvs)"
proof (induction kvs arbitrary: al)
  case Nil
  then show ?case by simp
next
  case (Cons kv kvs)
  obtain k v where kv: "kv = (k, v)" by (cases kv)
  show ?case
    by (simp add: kv Cons.IH update_conv' map_add_def fun_eq_iff split: option.splits)
qed

lemma distinct_fold_update:
  "distinct (map fst al) \<Longrightarrow>
     distinct (map fst (fold (\<lambda>(k, v) al. AList.update k v al) kvs al))"
proof (induction kvs arbitrary: al)
  case Nil
  then show ?case by simp
next
  case (Cons kv kvs)
  obtain k v where kv: "kv = (k, v)" by (cases kv)
  show ?case
    using Cons.prems by (simp add: kv Cons.IH distinct_update)
qed

lemma map_of_rev_distinct: "distinct (map fst kvs) \<Longrightarrow> map_of (rev kvs) = map_of kvs"
proof (induction kvs)
  case Nil
  then show ?case by simp
next
  case (Cons kv kvs)
  obtain k v where kv: "kv = (k, v)" by (cases kv)
  have "map_of kvs k = None"
    using Cons.prems by (simp add: kv map_of_eq_None_iff)
  then show ?case
    using Cons by (auto simp: kv map_add_def fun_eq_iff split: option.splits)
qed

lemma map_of_copy:
  "distinct (map fst kvs) \<Longrightarrow>
     map_of (fold (\<lambda>(k, v) al. AList.update k v al) kvs []) = map_of kvs"
  by (simp add: map_of_fold_update map_of_rev_distinct)

lemma distinct_copy: "distinct (map fst (fold (\<lambda>(k, v) al. AList.update k v al) kvs []))"
  by (rule distinct_fold_update) simp

text \<open>
  The order in which \<^verbatim>\<open>range\<close> visits the entries does not matter for the copy: two
  visits of the same entries, each key once, build the same mapping.
\<close>

lemma copy_order_irrelevant:
  assumes "distinct (map fst kvs)" and "distinct (map fst kvs')" and "set kvs' = set kvs"
  shows "map_of (fold (\<lambda>(k, v) al. AList.update k v al) kvs' [])
           = map_of (fold (\<lambda>(k, v) al. AList.update k v al) kvs [])"
proof -
  have "map_of kvs' = map_of kvs"
    using assms by (simp add: map_of_inject_set)
  then show ?thesis
    using assms by (simp add: map_of_copy)
qed

lemma copy_into_fresh:
  "map_assign (fold (\<lambda>(k, v) s. map_assign s (length st) k v) kvs (st @ [[]])) (length st) key val
     = st @ [AList.update key val (fold (\<lambda>(k, v) al. AList.update k v al) kvs [])]"
proof -
  have "fold (\<lambda>(k, v) s. map_assign s (length st) k v) kvs (st @ [[]])
          = (st @ [[]])[length st := fold (\<lambda>(k, v) al. AList.update k v al) kvs ((st @ [[]]) ! length st)]"
    by (rule copy_fold) simp
  then show ?thesis
    by (simp add: map_assign_def)
qed

lemma Header_eq:
  "Header rc key val st =
     (rc\<lparr>headers := length st\<rparr>,
      st @ [AList.update key val
              (fold (\<lambda>(k, v) al. AList.update k v al) (map_range (st @ [[]]) (headers rc)) [])])"
  unfolding Header_def make_map_def Let_def prod.case copy_into_fresh
  by (simp add: newClient_def)

lemma Query_eq:
  "Query rc key val st =
     (rc\<lparr>query := length st\<rparr>,
      st @ [AList.update key val
              (fold (\<lambda>(k, v) al. AList.update k v al) (map_range (st @ [[]]) (headers rc)) [])])"
  unfolding Query_def make_map_def Let_def prod.case copy_into_fresh
  by (simp add: newClient_def)

lemma map_range_old: "a < length st \<Longrightarrow> map_range (st @ ts) a = map_range st a"
  by (simp add: map_range_def nth_append)

lemma map_range_new: "map_range (st @ t # ts) (length st) = t"
  by (simp add: map_range_def)

lemma map_range_assign_other:
  "a \<noteq> b \<Longrightarrow> map_range (map_assign st a k v) b = map_range st b"
  by (simp add: map_range_def map_assign_def)

lemma test_base_eq:
  "test_base =
     \<lparr>client = test_client ''application/json; charset=utf-8'', url = ''http://x'',
      accept = test_json, contentType = test_json, headers = 0, query = 1, cookies = []\<rparr>"
  by (simp add: test_base_def MakeClient_def make_map_def newClient_def test_lib_def
      strings_Trim_def)

lemma test_store_eq: "test_store = [[], []]"
  by (simp add: test_store_def MakeClient_def make_map_def)

subsection \<open>Header\<close>

text \<open>
  Claim C4. Let \<open>c\<close> be a config whose headers map is allocated in the store and has one
  entry per key, and let \<open>c2 = c.Header(k, v)\<close>. The headers map of \<open>c\<close> is unchanged, as is
  every map that was in the store; the headers map of \<open>c2\<close> is a new map that equals the
  headers of \<open>c\<close> extended with \<open>k \<mapsto> v\<close>; the other fields of \<open>c2\<close> are those of \<open>c\<close>. For
  \<open>a = c.Header("H", "1")\<close> and \<open>b = c.Header("H", "2")\<close>: the three headers maps are
  distinct maps, \<open>a\<close> holds \<open>"1"\<close> and \<open>b\<close> holds \<open>"2"\<close> under \<open>"H"\<close>, building \<open>b\<close> leaves the
  maps of \<open>a\<close> and \<open>c\<close> as they were, and an assignment into the map of \<open>a\<close> or of \<open>b\<close>
  changes neither of the other two.
\<close>

theorem Header_frame:
  assumes ref: "headers c < length st"
    and uniq: "distinct (map fst (map_range st (headers c)))"
  shows
    "(case Header c k v st of (c2, st2) \<Rightarrow>
        map_range st2 (headers c) = map_range st (headers c)
      \<and> (\<forall>a < length st. map_range st2 a = map_range st a)
      \<and> map_of (map_range st2 (headers c2)) = (map_of (map_range st (headers c)))(k \<mapsto> v)
      \<and> headers c2 \<noteq> headers c
      \<and> c2 = c\<lparr>headers := headers c2\<rparr>)
   \<and> (case Header c ''H'' ''1'' st of (a, sta) \<Rightarrow>
       case Header c ''H'' ''2'' sta of (b, stb) \<Rightarrow>
        headers a \<noteq> headers b \<and> headers a \<noteq> headers c \<and> headers b \<noteq> headers c
      \<and> map_of (map_range stb (headers a)) ''H'' = Some ''1''
      \<and> map_of (map_range stb (headers b)) ''H'' = Some ''2''
      \<and> map_range stb (headers a) = map_range sta (headers a)
      \<and> map_range stb (headers c) = map_range st (headers c)
      \<and> (\<forall>k' v'. map_range (map_assign stb (headers a) k' v') (headers b)
                    = map_range stb (headers b)
                \<and> map_range (map_assign stb (headers a) k' v') (headers c)
                    = map_range stb (headers c))
      \<and> (\<forall>k' v'. map_range (map_assign stb (headers b) k' v') (headers a)
                    = map_range stb (headers a)
                \<and> map_range (map_assign stb (headers b) k' v') (headers c)
                    = map_range stb (headers c)))"
proof -
  have old: "map_range (st @ [[]]) (headers c) = map_range st (headers c)"
    using ref by (rule map_range_old)
  have single: "(case Header c k v st of (c2, st2) \<Rightarrow>
        map_range st2 (headers c) = map_range st (headers c)
      \<and> (\<forall>a < length st. map_range st2 a = map_range st a)
      \<and> map_of (map_range st2 (headers c2)) = (map_of (map_range st (headers c)))(k \<mapsto> v)
      \<and> headers c2 \<noteq> headers c
      \<and> c2 = c\<lparr>headers := headers c2\<rparr>)" for k v
    using ref uniq
    by (simp add: Header_eq old map_range_old map_range_new update_conv' map_of_copy)
  have branch: "(case Header c ''H'' ''1'' st of (a, sta) \<Rightarrow>
       case Header c ''H'' ''2'' sta of (b, stb) \<Rightarrow>
        headers a \<noteq> headers b \<and> headers a \<noteq> headers c \<and> headers b \<noteq> headers c
      \<and> map_of (map_range stb (headers a)) ''H'' = Some ''1''
      \<and> map_of (map_range stb (headers b)) ''H'' = Some ''2''
      \<and> map_range stb (headers a) = map_range sta (headers a)
      \<and> map_range stb (headers c) = map_range st (headers c)
      \<and> (\<forall>k' v'. map_range (map_assign stb (headers a) k' v') (headers b)
                    = map_range stb (headers b)
                \<and> map_range (map_assign stb (headers a) k' v') (headers c)
                    = map_range stb (headers c))
      \<and> (\<forall>k' v'. map_range (map_assign stb (headers b) k' v') (headers a)
                    = map_range stb (headers a)
                \<and> map_range (map_assign stb (headers b) k' v') (headers c)
                    = map_range stb (headers c)))"
    using ref
    by (simp add: Header_eq map_range_assign_other)
      (simp add: map_range_def nth_append update_conv')
  show ?thesis
    by (rule conjI [OF single branch])
qed

theorem Header_frame_witness:
  "headers test_base < length test_store
   \<and> distinct (map fst (map_range test_store (headers test_base)))
   \<and> map_range (snd (Header test_base ''K'' ''V'' test_store)) (headers test_base)
       = map_range test_store (headers test_base)
   \<and> map_of (map_range (snd (Header test_base ''K'' ''V'' test_store))
         (headers (fst (Header test_base ''K'' ''V'' test_store)))) ''K'' = Some ''V''
   \<and> headers (fst (Header test_base ''K'' ''V'' test_store)) \<noteq> headers test_base"
proof -
  have ref: "headers test_base < length test_store"
    by (simp add: test_base_eq test_store_eq)
  have uniq: "distinct (map fst (map_range test_store (headers test_base)))"
    by (simp add: test_base_eq test_store_eq map_range_def)
  show ?thesis
    using Header_frame [OF ref uniq, of "''K''" "''V''"] ref uniq
    by (simp add: split_beta)
qed

text \<open>
  Claim C10. Adding a header under a key that is already present overwrites its value:
  \<open>c.Header(k, v1).Header(k, v2)\<close> has the same headers mapping as \<open>c.Header(k, v2)\<close>, with
  \<open>v2\<close> under \<open>k\<close>. The headers maps that \<open>Header\<close> and \<open>MakeClient\<close> build, the only
  ones a config gets, hold every key once.
\<close>

theorem Header_last_write_wins:
  "(case Header c k v1 st of (c1, st1) \<Rightarrow>
    case Header c1 k v2 st1 of (c2, st2) \<Rightarrow>
    case Header c k v2 st of (c3, st3) \<Rightarrow>
       map_of (map_range st2 (headers c2)) = map_of (map_range st3 (headers c3))
     \<and> map_of (map_range st2 (headers c2)) k = Some v2
     \<and> distinct (map fst (map_range st1 (headers c1)))
     \<and> distinct (map fst (map_range st2 (headers c2))))
   \<and> (case MakeClient lib u st of (c0, st0) \<Rightarrow>
         distinct (map fst (map_range st0 (headers c0))))"
proof -
  let ?copy = "\<lambda>kvs. fold (\<lambda>(k, v) al. AList.update k v al) kvs []"
  let ?t0 = "?copy (map_range (st @ [[]]) (headers c))"
  let ?t1 = "AList.update k v1 ?t0"
  have d1: "distinct (map fst ?t1)"
    by (simp add: distinct_update distinct_copy)
  have "map_of (AList.update k v2 (?copy ?t1)) = map_of (AList.update k v2 ?t0)"
    by (simp add: update_conv' map_of_copy [OF d1])
  then have "case Header c k v1 st of (c1, st1) \<Rightarrow>
    case Header c1 k v2 st1 of (c2, st2) \<Rightarrow>
    case Header c k v2 st of (c3, st3) \<Rightarrow>
       map_of (map_range st2 (headers c2)) = map_of (map_range st3 (headers c3))
     \<and> map_of (map_range st2 (headers c2)) k = Some v2
     \<and> distinct (map fst (map_range st1 (headers c1)))
     \<and> distinct (map fst (map_range st2 (headers c2)))"
    using d1
    by (simp add: Header_eq map_range_new map_range_old distinct_update distinct_copy
        update_conv')
  moreover have "case MakeClient lib u st of (c0, st0) \<Rightarrow>
         distinct (map fst (map_range st0 (headers c0)))"
    by (simp add: MakeClient_def make_map_def newClient_def map_range_def nth_append)
  ultimately show ?thesis
    by (rule conjI)
qed

subsection \<open>Query\<close>

text \<open>
  What \<open>Query\<close> builds: the new query map is a copy of the headers map with the new pair
  added; every field but \<open>query\<close> carries over.
\<close>

lemma Query_new_table:
  assumes "headers c < length st" and "distinct (map fst (map_range st (headers c)))"
  shows "map_of (map_range (snd (Query c k v st)) (query (fst (Query c k v st))))
           = (map_of (map_range st (headers c)))(k \<mapsto> v)
         \<and> fst (Query c k v st) = c\<lparr>query := length st\<rparr>"
  using assms by (simp add: Query_eq map_range_old map_range_new update_conv' map_of_copy)

text \<open>
  Claim C1 says that \<open>c.Query(k, v)\<close> has the query mapping of \<open>c\<close> plus \<open>k \<mapsto> v\<close>. The
  code copies \<^verbatim>\<open>rc.headers\<close> instead. On \<^verbatim>\<open>MakeClient("http://x/")\<close>, after
  \<^verbatim>\<open>Query("a", "1")\<close> the query map is \<open>{a: 1}\<close>, and after a further
  \<^verbatim>\<open>Query("b", "2")\<close> it is \<open>{b: 2}\<close>: the entry for \<open>a\<close> is lost. After
  \<^verbatim>\<open>Header("H", "1")\<close> and \<^verbatim>\<open>Query("a", "1")\<close> the query map is \<open>{H: 1, a: 1}\<close>: the
  header has entered the query.
\<close>

theorem Query_copies_headers_not_query:
  "map_range (snd test_q1) (query (fst test_q1)) = [(''a'', ''1'')]
   \<and> map_range (snd test_q2) (query (fst test_q2)) = [(''b'', ''2'')]
   \<and> map_of (map_range (snd test_q2) (query (fst test_q2))) ''a'' = None
   \<and> map_range (snd test_hq) (headers (fst test_hq)) = [(''H'', ''1'')]
   \<and> map_range (snd test_hq) (query (fst test_hq)) = [(''H'', ''1''), (''a'', ''1'')]"
  by (simp add: test_q2_def test_q1_def test_hq_def test_h1_def Query_eq Header_eq
      test_base_eq test_store_eq map_range_def)

subsection \<open>The loops of request\<close>

lemma add_query_params_id: "add_query_params lib kvs uri = uri"
  unfolding add_query_params_def by (induction kvs) (simp_all add: split_beta)

lemma unmarshal_loop_trace:
  "ev \<in> set (snd (snd (unmarshal_loop mt body n es))) \<Longrightarrow> \<exists>i. ev = EvUnmarshal i"
proof (induction es arbitrary: n)
  case Nil
  then show ?case by simp
next
  case (Cons e es)
  obtain e' r where U: "MediaType_Unmarshal mt body e = (e', r)"
    by (cases "MediaType_Unmarshal mt body e")
  obtain r' es' tr where L: "unmarshal_loop mt body (Suc n) es = (r', es', tr)"
    by (cases "unmarshal_loop mt body (Suc n) es")
  show ?case
    using Cons.prems Cons.IH [of "Suc n"] U L by (cases r) auto
qed

lemma unmarshal_loop_no_Do:
  "unmarshal_loop mt body n es = (r, es', tr) \<Longrightarrow> EvDo req \<notin> set tr"
  using unmarshal_loop_trace [of "EvDo req" mt body n es] by auto


lemma unmarshal_loop_fail:
  "j < length es \<Longrightarrow> \<forall>i<j. snd (MediaType_Unmarshal mt body (es ! i)) = None \<Longrightarrow>
   snd (MediaType_Unmarshal mt body (es ! j)) = Some msg \<Longrightarrow>
   unmarshal_loop mt body n es =
     (Some (DeserializationError msg),
      map (\<lambda>e. fst (MediaType_Unmarshal mt body e)) (take (Suc j) es) @ drop (Suc j) es,
      map EvUnmarshal [n..<n + Suc j])"
proof (induction es arbitrary: j n)
  case Nil
  then show ?case by simp
next
  case (Cons e es)
  obtain e' r where U: "MediaType_Unmarshal mt body e = (e', r)"
    by (cases "MediaType_Unmarshal mt body e")
  show ?case
  proof (cases j)
    case 0
    then show ?thesis
      using Cons.prems U by (simp add: upt_conv_Cons del: upt_Suc)
  next
    case (Suc j')
    have e: "snd (MediaType_Unmarshal mt body e) = None"
      using Cons.prems(2) Suc by auto
    have "\<forall>i<j'. snd (MediaType_Unmarshal mt body (es ! i)) = None"
      using Cons.prems(2) Suc by auto
    then have "unmarshal_loop mt body (Suc n) es =
     (Some (DeserializationError msg),
      map (\<lambda>e. fst (MediaType_Unmarshal mt body e)) (take (Suc j') es) @ drop (Suc j') es,
      map EvUnmarshal [Suc n..<Suc n + Suc j'])"
      using Cons.prems Suc by (intro Cons.IH) auto
    then show ?thesis
      using e Suc U by (simp add: upt_conv_Cons del: upt_Suc)
  qed
qed

lemma unmarshal_loop_ok:
  "\<forall>i<length es. snd (MediaType_Unmarshal mt body (es ! i)) = None \<Longrightarrow>
   unmarshal_loop mt body n es =
     (None, map (\<lambda>e. fst (MediaType_Unmarshal mt body e)) es,
      map EvUnmarshal [n..<n + length es])"
proof (induction es arbitrary: n)
  case Nil
  then show ?case by simp
next
  case (Cons e es)
  obtain e' r where U: "MediaType_Unmarshal mt body e = (e', r)"
    by (cases "MediaType_Unmarshal mt body e")
  have e: "snd (MediaType_Unmarshal mt body e) = None"
    using Cons.prems by auto
  have "\<forall>i<length es. snd (MediaType_Unmarshal mt body (es ! i)) = None"
    using Cons.prems by auto
  then have "unmarshal_loop mt body (Suc n) es =
     (None, map (\<lambda>e. fst (MediaType_Unmarshal mt body e)) es,
      map EvUnmarshal [Suc n..<Suc n + length es])"
    by (rule Cons.IH)
  then show ?case
    using e U by (simp add: upt_conv_Cons del: upt_Suc)
qed

subsection \<open>The request that is sent\<close>

lemma NewRequest_either_branch:
  "(case reqBody of
      Some bs \<Rightarrow> http_NewRequest lib m u (Some bs)
    | None \<Rightarrow> http_NewRequest lib m u None) = http_NewRequest lib m u reqBody"
  by (cases reqBody) simp_all

lemma Header_Add_two:
  "Header_Add (Header_Add [] ''Accept'' a) ''Content-Type'' c =
     [(''Accept'', [a]), (''Content-Type'', [c])]"
  by (simp add: Header_Add_def)

lemma request_sent:
  assumes "EvDo req \<in> set (trace (request lib rc st m b es))"
  shows "\<exists>uri. url_Parse lib (url rc) = Inr uri
           \<and> http_NewRequest_error lib m (url_String lib uri) = None
           \<and> req = \<lparr>req_Method = (if m = [] then ''GET'' else m), req_URL = url_String lib uri,
                     req_Body = b,
                     req_Header = [(''Accept'', [MediaType_String (accept rc)]),
                                   (''Content-Type'', [MediaType_String (contentType rc)])]\<rparr>"
  using assms unfolding request_def NewRequest_either_branch
  by (auto simp: Let_def add_query_params_id http_NewRequest_def Header_Add_two
      dest: unmarshal_loop_no_Do split: sum.splits option.splits if_splits prod.splits)

lemma request_sent_built:
  assumes "EvDo req \<in> set (trace (request lib rc st m b es))"
  shows "\<exists>uri. url_Parse lib (url rc) = Inr uri
           \<and> http_NewRequest_error lib m (url_String lib uri) = None
           \<and> req = built_request lib rc m b uri"
  using request_sent [OF assms] by (simp add: built_request_def)

lemma request_after_send:
  assumes "url_Parse lib (url rc) = Inr uri"
    and "http_NewRequest_error lib m (url_String lib uri) = None"
    and "Do (client rc) (built_request lib rc m b uri) = Inr res"
  shows "request lib rc st m b es =
     (if es \<noteq> [] \<and>
         \<not> strings_Contains (strings_ToLower lib (Header_Get (res_Header res) ''Content-Type''))
             (strings_ToLower lib (MediaType_String (accept rc)))
      then \<lparr>err = Some (ContentTypeMismatch
               (''Expected Response Content-Type ['' @
                Header_Get (res_Header res) ''Content-Type'' @
                ''] to match/contain Request Accept ['' @ MediaType_String (accept rc) @ '']'')),
            entities = es, trace = [EvDo (built_request lib rc m b uri)]\<rparr>
      else (case res_Body res of
              Inl e \<Rightarrow> \<lparr>err = Some (BodyReadError e), entities = es,
                         trace = [EvDo (built_request lib rc m b uri), EvReadAll]\<rparr>
            | Inr body \<Rightarrow>
                (case unmarshal_loop (accept rc) body 0 es of
                   (r, es', tr) \<Rightarrow>
                     \<lparr>err = r, entities = es',
                      trace = [EvDo (built_request lib rc m b uri), EvReadAll] @ tr\<rparr>)))"
  using assms unfolding request_def NewRequest_either_branch
  by (simp add: Let_def add_query_params_id http_NewRequest_def Header_Add_two
      built_request_def cong: sum.case_cong if_cong prod.case_cong)

lemma request_independent:
  "client rc' = client rc \<Longrightarrow> url rc' = url rc \<Longrightarrow> accept rc' = accept rc \<Longrightarrow>
   contentType rc' = contentType rc \<Longrightarrow>
   request lib rc' st' m b es = request lib rc st m b es"
  unfolding request_def NewRequest_either_branch
  by (simp add: Let_def add_query_params_id cong: sum.case_cong if_cong prod.case_cong)

lemma test_request_eq:
  "test_request =
     \<lparr>req_Method = ''GET'', req_URL = ''http://x'', req_Body = None,
      req_Header = [(''Accept'', [''application/json'']),
                    (''Content-Type'', [''application/json''])]\<rparr>"
  by (simp add: test_request_def built_request_def test_lib_def test_base_eq test_json_def)

lemma test_get:
  "request test_lib test_base st ''GET'' None [] =
     \<lparr>err = None, entities = [], trace = [EvDo test_request, EvReadAll]\<rparr>"
  by (simp add: request_def Let_def add_query_params_id test_base_eq test_lib_def
      http_NewRequest_def Header_Add_two test_request_eq test_client_def test_json_def)

lemma test_get_fail:
  "request test_lib test_base st ''GET'' None [0, 5] =
     \<lparr>err = Some (DeserializationError ''cannot unmarshal''), entities = [0, 5],
      trace = [EvDo test_request, EvReadAll, EvUnmarshal 0]\<rparr>"
  by (simp add: request_def Let_def add_query_params_id test_base_eq test_lib_def
      http_NewRequest_def Header_Add_two test_request_eq test_client_def test_json_def
      Header_Get_def ascii_ToLower_def ascii_toLower_byte_def)



text \<open>
  Claim C2. The query mapping has no effect on the request: a config that differs from
  \<open>rc\<close> only in its query map, in any store, gives the same outcome of \<open>request\<close>, with
  the same trace and so the same request handed to the transport. The URL of that request
  is the string of the URI parsed from \<^verbatim>\<open>rc.url\<close>, its body is the body passed in, and
  its header holds \<^verbatim>\<open>Accept\<close> and \<^verbatim>\<open>Content-Type\<close>.
\<close>

theorem query_has_no_effect:
  "request lib (rc\<lparr>query := q'\<rparr>) st' m b es = request lib rc st m b es
   \<and> (\<forall>req. EvDo req \<in> set (trace (request lib rc st m b es)) \<longrightarrow>
         (\<exists>uri. url_Parse lib (url rc) = Inr uri \<and> req_URL req = url_String lib uri)
         \<and> req_Body req = b
         \<and> req_Header req = [(''Accept'', [MediaType_String (accept rc)]),
                              (''Content-Type'', [MediaType_String (contentType rc)])])"
proof -
  have "request lib (rc\<lparr>query := q'\<rparr>) st' m b es = request lib rc st m b es"
    by (rule request_independent) simp_all
  moreover have "(\<exists>uri. url_Parse lib (url rc) = Inr uri \<and> req_URL req = url_String lib uri)
         \<and> req_Body req = b
         \<and> req_Header req = [(''Accept'', [MediaType_String (accept rc)]),
                              (''Content-Type'', [MediaType_String (contentType rc)])]"
    if "EvDo req \<in> set (trace (request lib rc st m b es))" for req
    using request_sent [OF that] by auto
  ultimately show ?thesis
    by blast
qed

theorem query_has_no_effect_witness:
  "map_range (snd test_q1) (query (fst test_q1)) = [(''a'', ''1'')]
   \<and> map_range test_store (query test_base) = []
   \<and> request test_lib (fst test_q1) (snd test_q1) ''GET'' None []
       = request test_lib test_base test_store ''GET'' None []
   \<and> EvDo test_request \<in> set (trace (request test_lib test_base test_store ''GET'' None []))
   \<and> req_URL test_request = ''http://x''"
proof -
  have q: "fst test_q1 = test_base\<lparr>query := 2\<rparr>"
    by (simp add: test_q1_def Query_eq test_store_eq)
  show ?thesis
    using query_has_no_effect [where lib = test_lib and rc = test_base and q' = 2
        and st' = "snd test_q1" and m = "''GET''" and b = None and es = "[]"
        and st = test_store]
    by (simp add: q test_get test_request_eq)
      (simp add: test_q1_def Query_eq test_store_eq test_base_eq map_range_def)
qed

text \<open>
  Claim C3. The header of the request handed to the transport has exactly two entries:
  \<^verbatim>\<open>Accept\<close> with the name of the config's accept media type and \<^verbatim>\<open>Content-Type\<close>
  with the name of its contentType media type. Nothing of the config's headers map is
  attached: whatever that map is, the outcome of \<open>request\<close> is the same.
\<close>

theorem request_header_exact:
  assumes "EvDo req \<in> set (trace (request lib rc st m b es))"
  shows "req_Header req = [(''Accept'', [MediaType_String (accept rc)]),
                           (''Content-Type'', [MediaType_String (contentType rc)])]
    \<and> Header_Get (req_Header req) ''Accept'' = MediaType_String (accept rc)
    \<and> Header_Get (req_Header req) ''Content-Type'' = MediaType_String (contentType rc)
    \<and> request lib (rc\<lparr>headers := hs'\<rparr>) st' m b es = request lib rc st m b es"
proof -
  have "request lib (rc\<lparr>headers := hs'\<rparr>) st' m b es = request lib rc st m b es"
    by (rule request_independent) simp_all
  then show ?thesis
    using request_sent [OF assms] by (auto simp: Header_Get_def)
qed

theorem request_header_exact_witness:
  "map_range (snd test_h1) (headers (fst test_h1)) = [(''H'', ''1'')]
   \<and> EvDo test_request
       \<in> set (trace (request test_lib (fst test_h1) (snd test_h1) ''GET'' None []))
   \<and> req_Header test_request
       = [(''Accept'', [''application/json'']), (''Content-Type'', [''application/json''])]
   \<and> map_of (req_Header test_request) ''H'' = None"
proof -
  have h: "fst test_h1 = test_base\<lparr>headers := 2\<rparr>"
    by (simp add: test_h1_def Header_eq test_store_eq)
  have r: "request test_lib (fst test_h1) (snd test_h1) ''GET'' None []
             = request test_lib test_base test_store ''GET'' None []"
    unfolding h by (rule request_independent) simp_all
  have sent: "EvDo test_request
       \<in> set (trace (request test_lib (fst test_h1) (snd test_h1) ''GET'' None []))"
    by (simp add: r test_get)
  have tbl: "map_range (snd test_h1) (headers (fst test_h1)) = [(''H'', ''1'')]"
    by (simp add: test_h1_def Header_eq test_store_eq test_base_eq map_range_def)
  show ?thesis
    using request_header_exact [OF sent] sent tbl
    by (simp add: h test_base_eq test_json_def)
qed

text \<open>
  Claim C8 says that every cookie of the config's cookies sequence is attached to the
  outgoing request. It is not: for the config with the one cookie \<^verbatim>\<open>sid=42\<close> the request
  handed to the transport has no \<^verbatim>\<open>Cookie\<close> header.
\<close>

theorem cookies_attached_counterexample:
  "cookies (Cookie test_base test_cookie) = [test_cookie]
   \<and> trace (request test_lib (Cookie test_base test_cookie) test_store ''GET'' None [])
       = [EvDo test_request, EvReadAll]
   \<and> \<not> cookie_attached test_cookie test_request"
proof -
  have c: "Cookie test_base test_cookie = test_base\<lparr>cookies := [test_cookie]\<rparr>"
    by (simp add: Cookie_def newClient_def test_base_eq)
  have r: "request test_lib (Cookie test_base test_cookie) test_store ''GET'' None []
             = request test_lib test_base test_store ''GET'' None []"
    unfolding c by (rule request_independent) simp_all
  show ?thesis
    by (simp add: r test_get) (simp add: c cookie_attached_def test_request_eq Header_Get_def)
qed

text \<open>
  Claim C8, amended. \<open>Cookie\<close> appends the cookie to the config's sequence, and that is
  all: the request handed to the transport has no \<^verbatim>\<open>Cookie\<close> header, no cookie is
  attached to it, and the outcome of \<open>request\<close> does not depend on the cookies sequence.
\<close>

theorem request_sends_no_cookie:
  assumes "EvDo req \<in> set (trace (request lib rc st m b es))"
  shows "cookies (Cookie rc ck) = cookies rc @ [ck]
    \<and> Header_Get (req_Header req) ''Cookie'' = []
    \<and> (\<forall>ck'. \<not> cookie_attached ck' req)
    \<and> request lib (rc\<lparr>cookies := cs'\<rparr>) st m b es = request lib rc st m b es"
proof -
  have "request lib (rc\<lparr>cookies := cs'\<rparr>) st m b es = request lib rc st m b es"
    by (rule request_independent) simp_all
  then show ?thesis
    using request_sent [OF assms]
    by (auto simp: Header_Get_def cookie_attached_def Cookie_def newClient_def)
qed

theorem request_sends_no_cookie_witness:
  "cookies (Cookie test_base test_cookie) = [test_cookie]
   \<and> EvDo test_request
       \<in> set (trace (request test_lib (Cookie test_base test_cookie) test_store ''GET'' None []))
   \<and> Header_Get (req_Header test_request) ''Cookie'' = []"
proof -
  have c: "Cookie test_base test_cookie = test_base\<lparr>cookies := [test_cookie]\<rparr>"
    by (simp add: Cookie_def newClient_def test_base_eq)
  have r: "request test_lib (Cookie test_base test_cookie) test_store ''GET'' None []
             = request test_lib test_base test_store ''GET'' None []"
    unfolding c by (rule request_independent) simp_all
  have sent: "EvDo test_request
       \<in> set (trace (request test_lib (Cookie test_base test_cookie) test_store ''GET'' None []))"
    by (simp add: r test_get)
  show ?thesis
    using request_sends_no_cookie [OF sent] sent by (simp add: c)
qed

subsection \<open>The response\<close>



text \<open>
  Claim C6. When the body of the response has been read, the containers are unmarshalled
  in order from the same payload. If container \<open>j\<close> is the first whose \<open>Unmarshal\<close> fails,
  \<open>request\<close> returns that error, \<open>Unmarshal\<close> has been called for the containers \<open>0..j\<close>
  and for no other, and the containers after \<open>j\<close> are as they were. If no \<open>Unmarshal\<close>
  fails, \<open>request\<close> returns no error and every container has been unmarshalled once.
\<close>

theorem unmarshal_fail_fast:
  assumes sent: "EvDo req \<in> set (trace (request lib rc st m b es))"
    and resp: "Do (client rc) req = Inr res"
    and read: "EvReadAll \<in> set (trace (request lib rc st m b es))"
    and body: "res_Body res = Inr body"
  shows
    "(\<forall>j msg. j < length es
         \<and> (\<forall>i<j. snd (MediaType_Unmarshal (accept rc) body (es ! i)) = None)
         \<and> snd (MediaType_Unmarshal (accept rc) body (es ! j)) = Some msg \<longrightarrow>
         err (request lib rc st m b es) = Some (DeserializationError msg)
       \<and> trace (request lib rc st m b es) = [EvDo req, EvReadAll] @ map EvUnmarshal [0..<Suc j]
       \<and> take (Suc j) (entities (request lib rc st m b es))
           = map (\<lambda>e. fst (MediaType_Unmarshal (accept rc) body e)) (take (Suc j) es)
       \<and> drop (Suc j) (entities (request lib rc st m b es)) = drop (Suc j) es)
   \<and> ((\<forall>i<length es. snd (MediaType_Unmarshal (accept rc) body (es ! i)) = None) \<longrightarrow>
         err (request lib rc st m b es) = None
       \<and> trace (request lib rc st m b es)
           = [EvDo req, EvReadAll] @ map EvUnmarshal [0..<length es]
       \<and> entities (request lib rc st m b es)
           = map (\<lambda>e. fst (MediaType_Unmarshal (accept rc) body e)) es)"
proof -
  let ?R = "request lib rc st m b es"
  obtain uri where parse: "url_Parse lib (url rc) = Inr uri"
    and build: "http_NewRequest_error lib m (url_String lib uri) = None"
    and req: "req = built_request lib rc m b uri"
    using request_sent_built [OF sent] by blast
  have resp': "Do (client rc) (built_request lib rc m b uri) = Inr res"
    using resp req by simp
  note after = request_after_send [OF parse build resp', of st es]
  have no_mismatch:
    "\<not> (es \<noteq> [] \<and>
        \<not> strings_Contains (strings_ToLower lib (Header_Get (res_Header res) ''Content-Type''))
            (strings_ToLower lib (MediaType_String (accept rc))))"
  proof
    assume "es \<noteq> [] \<and>
        \<not> strings_Contains (strings_ToLower lib (Header_Get (res_Header res) ''Content-Type''))
            (strings_ToLower lib (MediaType_String (accept rc)))"
    then have "trace ?R = [EvDo (built_request lib rc m b uri)]"
      by (simp add: after)
    then show False
      using read by simp
  qed
  have R: "?R = (case unmarshal_loop (accept rc) body 0 es of
                   (r, es', tr) \<Rightarrow>
                     \<lparr>err = r, entities = es', trace = [EvDo req, EvReadAll] @ tr\<rparr>)"
    by (simp only: after if_not_P [OF no_mismatch] body sum.case req)
  have fail: "err ?R = Some (DeserializationError msg)
       \<and> trace ?R = [EvDo req, EvReadAll] @ map EvUnmarshal [0..<Suc j]
       \<and> take (Suc j) (entities ?R)
           = map (\<lambda>e. fst (MediaType_Unmarshal (accept rc) body e)) (take (Suc j) es)
       \<and> drop (Suc j) (entities ?R) = drop (Suc j) es"
    if j: "j < length es"
      and before: "\<forall>i<j. snd (MediaType_Unmarshal (accept rc) body (es ! i)) = None"
      and at: "snd (MediaType_Unmarshal (accept rc) body (es ! j)) = Some msg" for j msg
  proof -
    have len: "length (take (Suc j) es) = Suc j"
      using j by simp
    show ?thesis
      using len by (simp add: R unmarshal_loop_fail [OF j before at, of 0] del: upt_Suc)
  qed
  have ok: "err ?R = None
       \<and> trace ?R = [EvDo req, EvReadAll] @ map EvUnmarshal [0..<length es]
       \<and> entities ?R = map (\<lambda>e. fst (MediaType_Unmarshal (accept rc) body e)) es"
    if "\<forall>i<length es. snd (MediaType_Unmarshal (accept rc) body (es ! i)) = None"
    by (simp add: R unmarshal_loop_ok [OF that, of 0])
  show ?thesis
    using fail ok by blast
qed

theorem unmarshal_fail_fast_witness:
  "EvDo test_request \<in> set (trace (request test_lib test_base test_store ''GET'' None [0, 5]))
   \<and> Do (client test_base) test_request
       = Inr \<lparr>res_Header = [(''Content-Type'', [''application/json; charset=utf-8''])],
              res_Body = Inr ''{}''\<rparr>
   \<and> EvReadAll \<in> set (trace (request test_lib test_base test_store ''GET'' None [0, 5]))
   \<and> snd (MediaType_Unmarshal (accept test_base) ''{}'' ([0, 5] ! 0)) = Some ''cannot unmarshal''
   \<and> err (request test_lib test_base test_store ''GET'' None [0, 5])
       = Some (DeserializationError ''cannot unmarshal'')
   \<and> drop (Suc 0) (entities (request test_lib test_base test_store ''GET'' None [0, 5])) = [5]
   \<and> trace (request test_lib test_base test_store ''GET'' None [0, 5])
       = [EvDo test_request, EvReadAll, EvUnmarshal 0]"
proof -
  let ?R = "request test_lib test_base test_store ''GET'' None [0, 5]"
  have sent: "EvDo test_request \<in> set (trace ?R)"
    by (simp add: test_get_fail)
  have resp: "Do (client test_base) test_request
       = Inr \<lparr>res_Header = [(''Content-Type'', [''application/json; charset=utf-8''])],
              res_Body = Inr ''{}''\<rparr>"
    by (simp add: test_base_eq test_client_def)
  have read: "EvReadAll \<in> set (trace ?R)"
    by (simp add: test_get_fail)
  have fails: "snd (MediaType_Unmarshal (accept test_base) ''{}'' ([0, 5] ! 0))
                 = Some ''cannot unmarshal''"
    by (simp add: test_base_eq test_json_def)
  have "err ?R = Some (DeserializationError ''cannot unmarshal'')
       \<and> trace ?R = [EvDo test_request, EvReadAll] @ map EvUnmarshal [0..<Suc 0]
       \<and> drop (Suc 0) (entities ?R) = drop (Suc 0) [0, 5]"
    using unmarshal_fail_fast [OF sent resp read, of "''{}''", THEN conjunct1, rule_format,
        of 0 "''cannot unmarshal''"] fails by simp
  then show ?thesis
    using sent resp read fails by simp
qed

end
